theory Spec2Isabelle
  imports Main
begin

section \<open>Go strings\<close>

text \<open>
  A Go \<^verbatim>\<open>string\<close> is a sequence of bytes; \<^typ>\<open>string\<close> is a list of 8-bit
  characters, so \<^term>\<open>length\<close> is Go's \<^verbatim>\<open>len\<close>. The functions of this section
  follow the documented behaviour of the packages \<^verbatim>\<open>strings\<close> and \<^verbatim>\<open>fmt\<close> that
  \<^verbatim>\<open>main.go\<close> calls.
\<close>

text \<open>\<^verbatim>\<open>strings.Split(s, sep)\<close> for a one-byte separator: one more field than there
  are separators, in order; the empty string gives one empty field.\<close>

fun Split :: "char \<Rightarrow> string \<Rightarrow> string list" where
  "Split sep [] = [[]]"
| "Split sep (c # cs) =
     (if c = sep then [] # Split sep cs
      else (case Split sep cs of
              [] \<Rightarrow> [[c]]
            | p # ps \<Rightarrow> (c # p) # ps))"

text \<open>\<^verbatim>\<open>unicode.IsSpace\<close> on the UTF-8 encoded text: the six ASCII white-space bytes,
  and the encodings of U+0085, U+00A0, U+1680, U+2000 to U+200A, U+2028, U+2029,
  U+202F, U+205F and U+3000.\<close>

definition asciiSpace :: "char \<Rightarrow> bool" where
  "asciiSpace c \<longleftrightarrow>
     c = CHR 0x09 \<or> c = CHR 0x0A \<or> c = CHR 0x0B \<or> c = CHR 0x0C \<or> c = CHR 0x0D \<or> c = CHR 0x20"

definition space2 :: "string \<Rightarrow> bool" where
  "space2 b \<longleftrightarrow> b = [CHR 0xC2, CHR 0x85] \<or> b = [CHR 0xC2, CHR 0xA0]"

definition space3 :: "string \<Rightarrow> bool" where
  "space3 b \<longleftrightarrow>
     b = [CHR 0xE1, CHR 0x9A, CHR 0x80] \<or>
     b = [CHR 0xE2, CHR 0x80, CHR 0x80] \<or> b = [CHR 0xE2, CHR 0x80, CHR 0x81] \<or>
     b = [CHR 0xE2, CHR 0x80, CHR 0x82] \<or> b = [CHR 0xE2, CHR 0x80, CHR 0x83] \<or>
     b = [CHR 0xE2, CHR 0x80, CHR 0x84] \<or> b = [CHR 0xE2, CHR 0x80, CHR 0x85] \<or>
     b = [CHR 0xE2, CHR 0x80, CHR 0x86] \<or> b = [CHR 0xE2, CHR 0x80, CHR 0x87] \<or>
     b = [CHR 0xE2, CHR 0x80, CHR 0x88] \<or> b = [CHR 0xE2, CHR 0x80, CHR 0x89] \<or>
     b = [CHR 0xE2, CHR 0x80, CHR 0x8A] \<or>
     b = [CHR 0xE2, CHR 0x80, CHR 0xA8] \<or> b = [CHR 0xE2, CHR 0x80, CHR 0xA9] \<or>
     b = [CHR 0xE2, CHR 0x80, CHR 0xAF] \<or> b = [CHR 0xE2, CHR 0x81, CHR 0x9F] \<or>
     b = [CHR 0xE3, CHR 0x80, CHR 0x80]"

text \<open>The width in bytes of the white-space rune a string starts with, and of the one
  it ends with; 0 when there is none.\<close>

definition firstSpace :: "string \<Rightarrow> nat" where
  "firstSpace s =
     (if s = [] then 0
      else if asciiSpace (hd s) then 1
      else if space2 (take 2 s) then 2
      else if space3 (take 3 s) then 3
      else 0)"

definition lastSpace :: "string \<Rightarrow> nat" where
  "lastSpace s =
     (if s = [] then 0
      else if asciiSpace (last s) then 1
      else if space2 (drop (length s - 2) s) then 2
      else if space3 (drop (length s - 3) s) then 3
      else 0)"

function trimLeft :: "string \<Rightarrow> string" where
  "trimLeft s = (if firstSpace s = 0 then s else trimLeft (drop (firstSpace s) s))"
  by pat_completeness auto
termination
  by (relation "measure length") (auto simp: firstSpace_def split: if_splits)

function trimRight :: "string \<Rightarrow> string" where
  "trimRight s = (if lastSpace s = 0 then s else trimRight (take (length s - lastSpace s) s))"
  by pat_completeness auto
termination
  by (relation "measure length") (auto simp: lastSpace_def split: if_splits)

declare trimLeft.simps [simp del] trimRight.simps [simp del]

text \<open>\<^verbatim>\<open>strings.TrimSpace\<close>: leading and trailing white space removed.\<close>

definition TrimSpace :: "string \<Rightarrow> string" where
  "TrimSpace s = trimRight (trimLeft s)"

text \<open>The slice expression \<^verbatim>\<open>s[:n]\<close>: a run-time panic when \<^verbatim>\<open>n > len(s)\<close>,
  which is \<^term>\<open>None\<close> here.\<close>

definition sliceTo :: "string \<Rightarrow> nat \<Rightarrow> string option" where
  "sliceTo s n = (if n \<le> length s then Some (take n s) else None)"

text \<open>The verb \<^verbatim>\<open>%d\<close> of \<^verbatim>\<open>fmt\<close>: decimal digits, a minus sign before a negative
  number.\<close>

function decimal :: "nat \<Rightarrow> string" where
  "decimal n =
     (if n < 10 then [''0123456789'' ! n]
      else decimal (n div 10) @ [''0123456789'' ! (n mod 10)])"
  by pat_completeness auto
termination
  by (relation "measure id") auto

declare decimal.simps [simp del]

definition fmt_d :: "int \<Rightarrow> string" where
  "fmt_d i = (if i < 0 then CHR ''-'' # decimal (nat (- i)) else decimal (nat i))"

section \<open>The external process and the console\<close>

text \<open>An \<^verbatim>\<open>exec.Cmd\<close>: the program, its arguments and its working directory.\<close>

datatype command = Command (program: string) (args: "string list") (dir: string)

text \<open>
  What \<^verbatim>\<open>cmd.Output()\<close> returns: the standard output when \<^verbatim>\<open>err == nil\<close> (exit
  status 0); an \<^verbatim>\<open>*exec.ExitError\<close> with its \<^verbatim>\<open>ExitCode()\<close> and its text; or
  another error (the process could not be started) with its text.
\<close>

datatype run_result = Output string | ExitError int string | OtherError string

fun errText :: "run_result \<Rightarrow> string" where
  "errText (Output _) = []"
| "errText (ExitError _ msg) = msg"
| "errText (OtherError msg) = msg"

text \<open>One entry per call of \<^verbatim>\<open>fmt.Print\<close>, \<^verbatim>\<open>fmt.Println\<close>, \<^verbatim>\<open>fmt.Printf\<close>
  (standard output) or \<^verbatim>\<open>log.Printf\<close> (the logger; its time stamp is left out).\<close>

datatype event = Stdout string | Logged string

record world =
  calls :: "command list"
  out :: "event list"

text \<open>The environment answers a command, knowing the commands run before it.\<close>

type_synonym backend = "command list \<Rightarrow> command \<Rightarrow> run_result"

definition run :: "backend \<Rightarrow> command \<Rightarrow> world \<Rightarrow> run_result \<times> world" where
  "run be c w = (be (calls w) c, w\<lparr>calls := calls w @ [c]\<rparr>)"

definition Print :: "string \<Rightarrow> world \<Rightarrow> world" where
  "Print s w = w\<lparr>out := out w @ [Stdout s]\<rparr>"

definition Println :: "string \<Rightarrow> world \<Rightarrow> world" where
  "Println s w = Print (s @ [CHR 0x0A]) w"

definition logPrintf :: "string \<Rightarrow> world \<Rightarrow> world" where
  "logPrintf s w = w\<lparr>out := out w @ [Logged s]\<rparr>"

text \<open>A Go function returns a value, returns an error, or panics.\<close>

datatype 'a result = Ok 'a | Err string | Panic

text \<open>A function without results returns or panics, in the world it has reached.\<close>

datatype outcome = Done world | Panicked world

fun worldOf :: "outcome \<Rightarrow> world" where
  "worldOf (Done w) = w"
| "worldOf (Panicked w) = w"

section \<open>main.go\<close>

record GitSearchTool =
  repoPath :: string

text \<open>A \<^verbatim>\<open>map[string]string\<close>; indexing a missing key gives the empty string.\<close>

type_synonym fields = "string \<rightharpoonup> string"

definition index :: "fields \<Rightarrow> string \<Rightarrow> string" where
  "index m k = (case m k of None \<Rightarrow> [] | Some v \<Rightarrow> v)"

definition detailsCommand :: "GitSearchTool \<Rightarrow> command" where
  "detailsCommand g =
     Command ''git''
       [''log'', ''-1'', ''--pretty=format:%H|%an|%ae|%ad|%s|%b'', ''--date=short'']
       (repoPath g)"

definition getLastCommitDetails ::
  "backend \<Rightarrow> GitSearchTool \<Rightarrow> world \<Rightarrow> fields result \<times> world" where
  "getLastCommitDetails be g w =
     (case run be (detailsCommand g) w of
        (Output output, w') \<Rightarrow>
          (let parts = Split CHR ''|'' (TrimSpace output) in
           if length parts < 5 then (Err ''unexpected git log output format'', w')
           else
             (let details = [''hash'' \<mapsto> parts ! 0, ''author'' \<mapsto> parts ! 1,
                             ''email'' \<mapsto> parts ! 2, ''date'' \<mapsto> parts ! 3,
                             ''subject'' \<mapsto> parts ! 4, ''body'' \<mapsto> []]
              in (Ok (if length parts > 5 then details(''body'' \<mapsto> parts ! 5) else details),
                  w')))
      | (e, w') \<Rightarrow> (Err (''failed to get commit details: '' @ errText e), w'))"

text \<open>The loop of \<^verbatim>\<open>searchInCommitHistory\<close> over the lines, with its accumulator.\<close>

fun historyLoop :: "string list \<Rightarrow> fields list \<Rightarrow> fields list" where
  "historyLoop [] results = results"
| "historyLoop (line # lines) results =
     (if line = [] then historyLoop lines results
      else
        (let parts = Split CHR ''|'' line in
         if length parts \<ge> 4
         then historyLoop lines
                (results @ [[''hash'' \<mapsto> parts ! 0, ''author'' \<mapsto> parts ! 1,
                             ''date'' \<mapsto> parts ! 2, ''subject'' \<mapsto> parts ! 3]])
         else historyLoop lines results))"

definition historyCommand :: "GitSearchTool \<Rightarrow> string \<Rightarrow> int \<Rightarrow> command" where
  "historyCommand g query maxResults =
     Command ''git''
       [''log'', ''--grep='' @ query, ''-i'', ''-'' @ fmt_d maxResults,
        ''--pretty=format:%H|%an|%ad|%s'', ''--date=short'']
       (repoPath g)"

definition searchInCommitHistory ::
  "backend \<Rightarrow> GitSearchTool \<Rightarrow> string \<Rightarrow> int \<Rightarrow> world \<Rightarrow> fields list result \<times> world" where
  "searchInCommitHistory be g query maxResults w =
     (case run be (historyCommand g query maxResults) w of
        (Output output, w') \<Rightarrow>
          (Ok (historyLoop (Split (CHR 0x0A) (TrimSpace output)) []), w')
      | (e, w') \<Rightarrow> (Err (''failed to search commit history: '' @ errText e), w'))"

definition filesCommand :: "GitSearchTool \<Rightarrow> string \<Rightarrow> command" where
  "filesCommand g query =
     Command ''git'' [''grep'', ''-n'', ''-i'', ''--'', query] (repoPath g)"

definition searchInFiles ::
  "backend \<Rightarrow> GitSearchTool \<Rightarrow> string \<Rightarrow> int \<Rightarrow> world \<Rightarrow> string list result \<times> world" where
  "searchInFiles be g query maxResults w =
     (case run be (filesCommand g query) w of
        (Output output, w') \<Rightarrow>
          (let lines = Split (CHR 0x0A) (TrimSpace output) in
           if int (length lines) > maxResults
           then (if maxResults < 0 then (Panic, w')
                 else (Ok (take (nat maxResults) lines), w'))
           else (Ok lines, w'))
      | (ExitError code msg, w') \<Rightarrow>
          (if code = 1 then (Ok [], w')
           else (Err (''failed to search in files: '' @ msg), w'))
      | (OtherError msg, w') \<Rightarrow> (Err (''failed to search in files: '' @ msg), w'))"

definition displayLastCommit :: "backend \<Rightarrow> GitSearchTool \<Rightarrow> world \<Rightarrow> outcome" where
  "displayLastCommit be g w =
     (case getLastCommitDetails be g (Println ''=== Last Commit Information ==='' w) of
        (Err e, w') \<Rightarrow> Done (logPrintf (''Error getting commit details: '' @ e) w')
      | (Panic, w') \<Rightarrow> Panicked w'
      | (Ok details, w') \<Rightarrow>
          (case sliceTo (index details ''hash'') 8 of
             None \<Rightarrow> Panicked w'
           | Some h \<Rightarrow>
               (let w1 = Print (''Hash:    '' @ h @ [CHR 0x0A]) w';
                    w2 = Print (''Author:  '' @ index details ''author'' @ '' <''
                                @ index details ''email'' @ ''>'' @ [CHR 0x0A]) w1;
                    w3 = Print (''Date:    '' @ index details ''date'' @ [CHR 0x0A]) w2;
                    w4 = Print (''Subject: '' @ index details ''subject'' @ [CHR 0x0A]) w3;
                    w5 = (if index details ''body'' \<noteq> []
                          then Print (''Body:    '' @ index details ''body'' @ [CHR 0x0A]) w4
                          else w4)
                in Done (Println [] w5))))"

text \<open>The line \<^verbatim>\<open>"%d. [%s] %s - %s (%s)\n"\<close> of both commit loops of
  \<^verbatim>\<open>performSearch\<close>, for the commit at index \<open>i\<close> and its short hash \<open>h\<close>.\<close>

definition commitLine :: "nat \<Rightarrow> string \<Rightarrow> fields \<Rightarrow> string" where
  "commitLine i h commit =
     fmt_d (int i + 1) @ ''. ['' @ h @ ''] '' @ index commit ''subject'' @ '' - ''
       @ index commit ''author'' @ '' ('' @ index commit ''date'' @ '')'' @ [CHR 0x0A]"

text \<open>The first loop: a commit is printed when its short hash is \<open>hash\<close>.\<close>

fun pinnedLoop :: "string \<Rightarrow> nat \<Rightarrow> fields list \<Rightarrow> world \<Rightarrow> outcome" where
  "pinnedLoop hash i [] w = Done w"
| "pinnedLoop hash i (commit # commits) w =
     (case sliceTo (index commit ''hash'') 8 of
        None \<Rightarrow> Panicked w
      | Some h \<Rightarrow>
          pinnedLoop hash (i + 1) commits
            (if h = hash then Print (commitLine i h commit) w else w))"

text \<open>The second loop: every commit is printed.\<close>

fun commitLoop :: "nat \<Rightarrow> fields list \<Rightarrow> world \<Rightarrow> outcome" where
  "commitLoop i [] w = Done w"
| "commitLoop i (commit # commits) w =
     (case sliceTo (index commit ''hash'') 8 of
        None \<Rightarrow> Panicked w
      | Some h \<Rightarrow> commitLoop (i + 1) commits (Print (commitLine i h commit) w))"

text \<open>The third loop: every file match is printed.\<close>

fun matchLoop :: "nat \<Rightarrow> string list \<Rightarrow> world \<Rightarrow> world" where
  "matchLoop i [] w = w"
| "matchLoop i (m # ms) w =
     matchLoop (i + 1) ms (Print (fmt_d (int i + 1) @ ''. '' @ m @ [CHR 0x0A]) w)"

text \<open>The three stages of \<^verbatim>\<open>performSearch\<close>, in the order of the source.\<close>

definition recentStage :: "backend \<Rightarrow> GitSearchTool \<Rightarrow> string \<Rightarrow> string \<Rightarrow> world \<Rightarrow> outcome" where
  "recentStage be g query hash w =
     (case searchInCommitHistory be g query 1
             (Println (CHR 0x0A # ''--- Commit Messages ---'') w) of
        (Err e, w') \<Rightarrow> Done (logPrintf (''Error searching commits: '' @ e) w')
      | (Panic, w') \<Rightarrow> Panicked w'
      | (Ok commits, w') \<Rightarrow>
          (if length commits = 0
           then Done (Println ''No matches found in commit messages.'' w')
           else pinnedLoop hash 0 commits w'))"

definition historyStage :: "backend \<Rightarrow> GitSearchTool \<Rightarrow> string \<Rightarrow> world \<Rightarrow> outcome" where
  "historyStage be g query w =
     (case searchInCommitHistory be g query 10
             (Println (CHR 0x0A # ''--- Commit Messages ---'') w) of
        (Err e, w') \<Rightarrow> Done (logPrintf (''Error searching commits: '' @ e) w')
      | (Panic, w') \<Rightarrow> Panicked w'
      | (Ok commits, w') \<Rightarrow>
          (if length commits = 0
           then Done (Println ''No matches found in commit messages.'' w')
           else commitLoop 0 commits w'))"

definition fileStage :: "backend \<Rightarrow> GitSearchTool \<Rightarrow> string \<Rightarrow> world \<Rightarrow> outcome" where
  "fileStage be g query w =
     (case searchInFiles be g query 20
             (Println (CHR 0x0A # ''--- File Contents ---'') w) of
        (Err e, w') \<Rightarrow> Done (logPrintf (''Error searching files: '' @ e) w')
      | (Panic, w') \<Rightarrow> Panicked w'
      | (Ok fileMatches, w') \<Rightarrow>
          (if length fileMatches = 0
           then Done (Println ''No matches found in tracked files.'' w')
           else
             (let w1 = matchLoop 0 fileMatches w' in
              Done (if length fileMatches = 20
                    then Println ''... (showing first 20 matches)'' w1
                    else w1))))"

text \<open>Sequencing: a panic ends the function that was running.\<close>

fun andThen :: "outcome \<Rightarrow> (world \<Rightarrow> outcome) \<Rightarrow> outcome" where
  "andThen (Done w) f = f w"
| "andThen (Panicked w) f = Panicked w"

definition performSearch :: "backend \<Rightarrow> GitSearchTool \<Rightarrow> string \<Rightarrow> world \<Rightarrow> outcome" where
  "performSearch be g query w =
     andThen
       (andThen
          (andThen
             (recentStage be g query ''64fc5dd7''
                (Print (CHR 0x0A # ''=== Search Results for: '' @ [CHR 0x22] @ query
                        @ [CHR 0x22] @ '' ==='' @ [CHR 0x0A]) w))
             (historyStage be g query))
          (fileStage be g query))
       (\<lambda>w'. Done (Println [] w'))"

text \<open>
  \<^verbatim>\<open>interactiveSearch\<close>. The second argument is the sequence of lines the scanner
  delivers; \<^verbatim>\<open>scanner.Scan()\<close> is false when it is used up.
\<close>

fun interactiveSearch :: "backend \<Rightarrow> GitSearchTool \<Rightarrow> string list \<Rightarrow> world \<Rightarrow> outcome" where
  "interactiveSearch be g [] w = Done (Print ''Enter search query (or 'quit' to exit): '' w)"
| "interactiveSearch be g (text # rest) w =
     (let w1 = Print ''Enter search query (or 'quit' to exit): '' w;
          query = TrimSpace text
      in if query = ''quit'' \<or> query = ''exit'' \<or> query = ''q'' then Done w1
         else if query = [] then interactiveSearch be g rest w1
         else (case performSearch be g query w1 of
                 Panicked w2 \<Rightarrow> Panicked w2
               | Done w2 \<Rightarrow> interactiveSearch be g rest w2))"

section \<open>Observations and test doubles\<close>

fun panicked :: "outcome \<Rightarrow> bool" where
  "panicked (Done w) = False"
| "panicked (Panicked w) = True"

text \<open>What a call has added to the console.\<close>

definition printed :: "world \<Rightarrow> outcome \<Rightarrow> event list" where
  "printed w r = drop (length (out w)) (out (worldOf r))"

text \<open>What a call has added to the list of commands run.\<close>

definition issued :: "world \<Rightarrow> outcome \<Rightarrow> command list" where
  "issued w r = drop (length (calls w)) (calls (worldOf r))"

text \<open>A backend that answers the \<open>n\<close>-th command with the \<open>n\<close>-th entry of a script.\<close>

definition scripted :: "run_result list \<Rightarrow> backend" where
  "scripted rs h c =
     (if length h < length rs then rs ! length h else OtherError ''no more answers'')"

definition world0 :: world where
  "world0 = \<lparr>calls = [], out = []\<rparr>"

definition tool0 :: GitSearchTool where
  "tool0 = \<lparr>repoPath = ''/repo''\<rparr>"

text \<open>The four fields of a commit of the history search, in the order of the line.\<close>

definition shown :: "fields \<Rightarrow> string list" where
  "shown r = [index r ''hash'', index r ''author'', index r ''date'', index r ''subject'']"

section \<open>Auxiliary definitions for the statements\<close>

text \<open>Some commit of a list has a hash of fewer than 8 bytes, so that the slice
  expression \<^verbatim>\<open>commit["hash"][:8]\<close> panics on it; and the same for what a search returns.\<close>

definition anyShort :: "fields list \<Rightarrow> bool" where
  "anyShort commits = list_ex (\<lambda>c. length (index c ''hash'') < 8) commits"

fun shortHash :: "fields list result \<Rightarrow> bool" where
  "shortHash (Ok commits) = anyShort commits"
| "shortHash (Err e) = False"
| "shortHash Panic = False"

text \<open>The hashes of the commits a search returns.\<close>

fun hashesOf :: "fields list result \<Rightarrow> string list" where
  "hashesOf (Ok commits) = map (\<lambda>c. index c ''hash'') commits"
| "hashesOf (Err e) = []"
| "hashesOf Panic = []"

text \<open>What the three loops print for commits, or matches, numbered from \<open>i + 1\<close>.\<close>

definition commitLines :: "nat \<Rightarrow> fields list \<Rightarrow> event list" where
  "commitLines i commits =
     map (\<lambda>(k, c). Stdout (commitLine k (take 8 (index c ''hash'')) c)) (enumerate i commits)"

definition pinnedLines :: "string \<Rightarrow> nat \<Rightarrow> fields list \<Rightarrow> event list" where
  "pinnedLines hash i commits =
     map (\<lambda>(k, c). Stdout (commitLine k hash c))
       (filter (\<lambda>(k, c). take 8 (index c ''hash'') = hash) (enumerate i commits))"

definition matchLines :: "nat \<Rightarrow> string list \<Rightarrow> event list" where
  "matchLines i ms =
     map (\<lambda>(k, m). Stdout (fmt_d (int k + 1) @ ''. '' @ m @ [CHR 0x0A])) (enumerate i ms)"

text \<open>The fixed lines of the console, as the source prints them.\<close>

definition lastCommitHeader :: event where
  "lastCommitHeader = Stdout (''=== Last Commit Information ==='' @ [CHR 0x0A])"

definition resultsHeader :: "string \<Rightarrow> event" where
  "resultsHeader query =
     Stdout (CHR 0x0A # ''=== Search Results for: '' @ [CHR 0x22] @ query @ [CHR 0x22]
             @ '' ==='' @ [CHR 0x0A])"

definition commitsHeader :: event where
  "commitsHeader = Stdout (CHR 0x0A # ''--- Commit Messages ---'' @ [CHR 0x0A])"

definition filesHeader :: event where
  "filesHeader = Stdout (CHR 0x0A # ''--- File Contents ---'' @ [CHR 0x0A])"


definition truncationNotice :: event where
  "truncationNotice = Stdout (''... (showing first 20 matches)'' @ [CHR 0x0A])"

definition prompt :: "world \<Rightarrow> world" where
  "prompt w = Print ''Enter search query (or 'quit' to exit): '' w"

text \<open>The world once a stage has printed its header and run its command.\<close>

definition afterSearch :: "world \<Rightarrow> event \<Rightarrow> command \<Rightarrow> world" where
  "afterSearch w header c = w\<lparr>calls := calls w @ [c], out := out w @ [header]\<rparr>"

text \<open>The end of \<^verbatim>\<open>performSearch\<close>: from the file stage on, and from the history stage
  on.\<close>

definition lastPart :: "backend \<Rightarrow> GitSearchTool \<Rightarrow> string \<Rightarrow> world \<Rightarrow> outcome" where
  "lastPart be g query w = andThen (fileStage be g query w) (\<lambda>w'. Done (Println [] w'))"

definition middlePart :: "backend \<Rightarrow> GitSearchTool \<Rightarrow> string \<Rightarrow> world \<Rightarrow> outcome" where
  "middlePart be g query w = andThen (historyStage be g query w) (lastPart be g query)"




text \<open>The three commands of one search, in the order \<^verbatim>\<open>performSearch\<close> runs them.\<close>

definition searchCommands :: "GitSearchTool \<Rightarrow> string \<Rightarrow> command list" where
  "searchCommands g query =
     [historyCommand g query 1, historyCommand g query 10, filesCommand g query]"

text \<open>
  The session loop as the specification words it: the queries searched for are the
  trimmed lines that are not empty, up to the first line that is an exit word.
\<close>

fun dispatched :: "string list \<Rightarrow> string list" where
  "dispatched [] = []"
| "dispatched (text # rest) =
     (if TrimSpace text = ''quit'' \<or> TrimSpace text = ''exit'' \<or> TrimSpace text = ''q'' then []
      else if TrimSpace text = [] then dispatched rest
      else TrimSpace text # dispatched rest)"

section \<open>Splitting\<close>

lemma Split_not_Nil [simp]: "Split sep s \<noteq> []"
  by (induction s) (auto split: list.splits)

lemma length_Split_pos [simp]: "0 < length (Split sep s)"
  by (simp add: Split_not_Nil)

lemma hd_Split: "hd (Split sep s) = takeWhile (\<lambda>c. c \<noteq> sep) s"
  by (induction s) (auto split: list.splits)

lemma Split_nth_0: "Split sep s ! 0 = takeWhile (\<lambda>c. c \<noteq> sep) s"
  using hd_Split [of sep s] by (simp add: hd_conv_nth)

lemma Split_no_sep: "sep \<notin> set p \<Longrightarrow> Split sep p = [p]"
  by (induction p) auto

lemma Split_append_sep: "sep \<notin> set p \<Longrightarrow> Split sep (p @ sep # r) = p # Split sep r"
  by (induction p) auto

lemma Split_fields_no_sep: "f \<in> set (Split sep s) \<Longrightarrow> sep \<notin> set f"
  by (induction s arbitrary: f) (auto split: if_splits list.splits)

section \<open>The history search\<close>

lemma historyLoop_acc: "historyLoop lines acc = acc @ historyLoop lines []"
proof (induction lines arbitrary: acc)
  case Nil
  show ?case by simp
next
  case (Cons line lines)
  show ?case
    using Cons.IH [of "acc @ [x]" for x] Cons.IH [of "[x]" for x] Cons.IH [of acc]
    by (simp add: Let_def)
qed

lemma shown_record:
  "shown [''hash'' \<mapsto> a, ''author'' \<mapsto> b, ''date'' \<mapsto> c, ''subject'' \<mapsto> d] = [a, b, c, d]"
  by (simp add: shown_def index_def)

lemma take4: "4 \<le> length xs \<Longrightarrow> take 4 xs = [xs ! 0, xs ! 1, xs ! 2, xs ! 3]"
  by (auto simp: eval_nat_numeral Suc_le_length_iff)

lemma historyLoop_shown:
  "map shown (historyLoop lines []) =
     map (\<lambda>line. take 4 (Split CHR ''|'' line))
       (filter (\<lambda>line. 4 \<le> length (Split CHR ''|'' line)) lines)"
proof (induction lines)
  case Nil
  show ?case by simp
next
  case (Cons line lines)
  show ?case
  proof (cases "4 \<le> length (Split CHR ''|'' line)")
    case True
    then have "line \<noteq> []" by auto
    with True Cons show ?thesis
      using historyLoop_acc [of lines "[x]" for x]
      by (simp add: Let_def shown_record take4)
  next
    case False
    with Cons show ?thesis by (simp add: Let_def)
  qed
qed

lemma searchInCommitHistory_Output:
  "be (calls w) (historyCommand g query maxResults) = Output output \<Longrightarrow>
     searchInCommitHistory be g query maxResults w =
       (Ok (historyLoop (Split (CHR 0x0A) (TrimSpace output)) []),
        w\<lparr>calls := calls w @ [historyCommand g query maxResults]\<rparr>)"
  by (simp add: searchInCommitHistory_def run_def)

text \<open>
  C6. A line of the history search with fewer than 4 pipe-separated fields is skipped
  and the other lines are returned, in order, with their first four fields; an output of
  the detail fetch with fewer than 5 fields makes \<^verbatim>\<open>getLastCommitDetails\<close> return an
  error.
\<close>

theorem malformed_lines_policy:
  "(be (calls w) (historyCommand g query maxResults) = Output output \<longrightarrow>
      (\<exists>results. fst (searchInCommitHistory be g query maxResults w) = Ok results \<and>
         map shown results =
           map (\<lambda>line. take 4 (Split CHR ''|'' line))
             (filter (\<lambda>line. 4 \<le> length (Split CHR ''|'' line))
                (Split (CHR 0x0A) (TrimSpace output))))) \<and>
   (be (calls w) (detailsCommand g) = Output output \<longrightarrow>
      length (Split CHR ''|'' (TrimSpace output)) < 5 \<longrightarrow>
      fst (getLastCommitDetails be g w) = Err ''unexpected git log output format'')"
proof (intro conjI impI)
  assume "be (calls w) (historyCommand g query maxResults) = Output output"
  then show "\<exists>results. fst (searchInCommitHistory be g query maxResults w) = Ok results \<and>
         map shown results =
           map (\<lambda>line. take 4 (Split CHR ''|'' line))
             (filter (\<lambda>line. 4 \<le> length (Split CHR ''|'' line))
                (Split (CHR 0x0A) (TrimSpace output)))"
    by (simp add: searchInCommitHistory_Output historyLoop_shown)
next
  assume "be (calls w) (detailsCommand g) = Output output"
    and "length (Split CHR ''|'' (TrimSpace output)) < 5"
  then show "fst (getLastCommitDetails be g w) = Err ''unexpected git log output format''"
    by (simp add: getLastCommitDetails_def run_def Let_def)
qed

theorem malformed_lines_policy_witness:
  "(\<exists>results.
      fst (searchInCommitHistory
             (scripted [Output ''a1b2c3d4e5|Ann|2024-01-01|one\<newline>broken|line\<newline>f6a7b8c9d0|Bob|2024-02-02|two|more''])
             tool0 ''o'' 10 world0) = Ok results \<and>
      map shown results =
        [[''a1b2c3d4e5'', ''Ann'', ''2024-01-01'', ''one''],
         [''f6a7b8c9d0'', ''Bob'', ''2024-02-02'', ''two'']]) \<and>
   fst (getLastCommitDetails (scripted [Output ''a1b2c3d4e5|Ann|ann@example.org'']) tool0 world0)
     = Err ''unexpected git log output format''"
proof -
  let ?o1 = "''a1b2c3d4e5|Ann|2024-01-01|one\<newline>broken|line\<newline>f6a7b8c9d0|Bob|2024-02-02|two|more''"
  let ?o2 = "''a1b2c3d4e5|Ann|ann@example.org''"
  have h1: "scripted [Output ?o1] (calls world0) (historyCommand tool0 ''o'' 10) = Output ?o1"
    by (simp add: scripted_def world0_def)
  have h2: "scripted [Output ?o2] (calls world0) (detailsCommand tool0) = Output ?o2"
    by (simp add: scripted_def world0_def)
  have e1: "map (\<lambda>line. take 4 (Split CHR ''|'' line))
             (filter (\<lambda>line. 4 \<le> length (Split CHR ''|'' line))
                (Split (CHR 0x0A) (TrimSpace ?o1))) =
        [[''a1b2c3d4e5'', ''Ann'', ''2024-01-01'', ''one''],
         [''f6a7b8c9d0'', ''Bob'', ''2024-02-02'', ''two'']]"
    by code_simp
  have e2: "length (Split CHR ''|'' (TrimSpace ?o2)) < 5"
    by code_simp
  from malformed_lines_policy [of "scripted [Output ?o1]" world0 tool0 "''o''" 10 ?o1]
  have a: "\<exists>results.
      fst (searchInCommitHistory (scripted [Output ?o1]) tool0 ''o'' 10 world0) = Ok results \<and>
      map shown results =
        [[''a1b2c3d4e5'', ''Ann'', ''2024-01-01'', ''one''],
         [''f6a7b8c9d0'', ''Bob'', ''2024-02-02'', ''two'']]"
    using h1 e1 by simp
  from malformed_lines_policy [of "scripted [Output ?o2]" world0 tool0 "''o''" 10 ?o2]
  have b: "fst (getLastCommitDetails (scripted [Output ?o2]) tool0 world0)
     = Err ''unexpected git log output format''"
    using h2 e2 by simp
  from a b show ?thesis by simp
qed

section \<open>File search: exit status\<close>

text \<open>
  C2. Whatever the query and the limit, \<^verbatim>\<open>searchInFiles\<close> turns the exit status 1 of
  the backend into the empty list of matches without an error, and every other exit
  status of a failed run into an error.
\<close>

theorem searchInFiles_exit_status:
  "be (calls w) (filesCommand g query) = ExitError code msg \<Longrightarrow>
     fst (searchInFiles be g query maxResults w) =
       (if code = 1 then Ok [] else Err (''failed to search in files: '' @ msg))"
  by (simp add: searchInFiles_def run_def)

theorem searchInFiles_exit_status_witness:
  "scripted [ExitError 1 ''exit status 1''] (calls world0) (filesCommand tool0 ''TODO'')
     = ExitError 1 ''exit status 1'' \<and>
   fst (searchInFiles (scripted [ExitError 1 ''exit status 1'']) tool0 ''TODO'' 20 world0)
     = Ok [] \<and>
   scripted [ExitError 2 ''exit status 2''] (calls world0) (filesCommand tool0 ''TODO'')
     = ExitError 2 ''exit status 2'' \<and>
   fst (searchInFiles (scripted [ExitError 2 ''exit status 2'']) tool0 ''TODO'' 20 world0)
     = Err ''failed to search in files: exit status 2''"
proof -
  have a: "scripted [ExitError 1 ''exit status 1''] (calls world0) (filesCommand tool0 ''TODO'')
     = ExitError 1 ''exit status 1''"
    by (simp add: scripted_def world0_def)
  have b: "scripted [ExitError 2 ''exit status 2''] (calls world0) (filesCommand tool0 ''TODO'')
     = ExitError 2 ''exit status 2''"
    by (simp add: scripted_def world0_def)
  show ?thesis
    using a b
      searchInFiles_exit_status [of "scripted [ExitError 1 ''exit status 1'']" world0 tool0
        "''TODO''" 1 "''exit status 1''" 20]
      searchInFiles_exit_status [of "scripted [ExitError 2 ''exit status 2'']" world0 tool0
        "''TODO''" 2 "''exit status 2''" 20]
    by simp
qed

section \<open>The loops and the stages of performSearch\<close>

lemma anyShort_Nil [simp]: "anyShort [] = False"
  by (simp add: anyShort_def)

lemma anyShort_Cons [simp]:
  "anyShort (c # cs) \<longleftrightarrow> length (index c ''hash'') < 8 \<or> anyShort cs"
  by (simp add: anyShort_def)

lemma calls_Print [simp]: "calls (Print s w) = calls w"
  by (simp add: Print_def)

lemma calls_Println [simp]: "calls (Println s w) = calls w"
  by (simp add: Println_def)

lemma calls_logPrintf [simp]: "calls (logPrintf s w) = calls w"
  by (simp add: logPrintf_def)

lemma out_Print [simp]: "out (Print s w) = out w @ [Stdout s]"
  by (simp add: Print_def)

lemma out_Println [simp]: "out (Println s w) = out w @ [Stdout (s @ [CHR 0x0A])]"
  by (simp add: Println_def)

lemma out_logPrintf [simp]: "out (logPrintf s w) = out w @ [Logged s]"
  by (simp add: logPrintf_def)

lemma commitLoop_Done:
  "\<not> anyShort commits \<Longrightarrow>
     commitLoop i commits w = Done (w\<lparr>out := out w @ commitLines i commits\<rparr>)"
proof (induction commits arbitrary: i w)
  case Nil
  show ?case by (simp add: commitLines_def)
next
  case (Cons c cs)
  then show ?case
    by (simp add: sliceTo_def commitLines_def Print_def)
qed

lemma commitLoop_Panicked: "anyShort commits \<Longrightarrow> panicked (commitLoop i commits w)"
  by (induction commits arbitrary: i w) (auto simp: sliceTo_def)

lemma commitLoop_calls: "calls (worldOf (commitLoop i commits w)) = calls w"
  by (induction commits arbitrary: i w) (auto simp: sliceTo_def)


lemma pinnedLoop_Done:
  "\<not> anyShort commits \<Longrightarrow>
     pinnedLoop hash i commits w = Done (w\<lparr>out := out w @ pinnedLines hash i commits\<rparr>)"
proof (induction commits arbitrary: i w)
  case Nil
  show ?case by (simp add: pinnedLines_def)
next
  case (Cons c cs)
  then show ?case
    by (simp add: sliceTo_def pinnedLines_def Print_def)
qed

lemma pinnedLoop_Panicked: "anyShort commits \<Longrightarrow> panicked (pinnedLoop hash i commits w)"
  by (induction commits arbitrary: i w) (auto simp: sliceTo_def)

lemma pinnedLoop_calls: "calls (worldOf (pinnedLoop hash i commits w)) = calls w"
  by (induction commits arbitrary: i w) (auto simp: sliceTo_def)


lemma matchLoop_calls [simp]: "calls (matchLoop i ms w) = calls w"
  by (induction ms arbitrary: i w) auto

lemma matchLoop_out: "out (matchLoop i ms w) = out w @ matchLines i ms"
  by (induction ms arbitrary: i w) (auto simp: matchLines_def)

text \<open>The searches: what they run, and what they depend on.\<close>

lemma searchInCommitHistory_world:
  "snd (searchInCommitHistory be g query n w) = w\<lparr>calls := calls w @ [historyCommand g query n]\<rparr>"
  by (simp add: searchInCommitHistory_def run_def split: run_result.splits)

lemma searchInCommitHistory_calls_only:
  "calls w = calls w' \<Longrightarrow>
     fst (searchInCommitHistory be g query n w) = fst (searchInCommitHistory be g query n w')"
  by (simp add: searchInCommitHistory_def run_def split: run_result.splits)

lemma searchInCommitHistory_no_Panic: "fst (searchInCommitHistory be g query n w) \<noteq> Panic"
  by (simp add: searchInCommitHistory_def run_def split: run_result.splits)

lemma searchInFiles_world:
  "snd (searchInFiles be g query n w) = w\<lparr>calls := calls w @ [filesCommand g query]\<rparr>"
  by (simp add: searchInFiles_def run_def Let_def split: run_result.splits)

lemma searchInFiles_calls_only:
  "calls w = calls w' \<Longrightarrow>
     fst (searchInFiles be g query n w) = fst (searchInFiles be g query n w')"
  by (simp add: searchInFiles_def run_def Let_def split: run_result.splits)

lemma searchInFiles_no_Panic: "0 \<le> n \<Longrightarrow> fst (searchInFiles be g query n w) \<noteq> Panic"
  by (simp add: searchInFiles_def run_def Let_def split: run_result.splits)

lemma getLastCommitDetails_world:
  "snd (getLastCommitDetails be g w) = w\<lparr>calls := calls w @ [detailsCommand g]\<rparr>"
  by (simp add: getLastCommitDetails_def run_def Let_def split: run_result.splits)

lemma getLastCommitDetails_calls_only:
  "calls w = calls w' \<Longrightarrow>
     fst (getLastCommitDetails be g w) = fst (getLastCommitDetails be g w')"
  by (simp add: getLastCommitDetails_def run_def Let_def split: run_result.splits)

lemma getLastCommitDetails_no_Panic: "fst (getLastCommitDetails be g w) \<noteq> Panic"
  by (simp add: getLastCommitDetails_def run_def Let_def split: run_result.splits)

lemma recentStage_unfold:
  "recentStage be g query hash w =
     (case fst (searchInCommitHistory be g query 1 w) of
        Err e \<Rightarrow> Done (logPrintf (''Error searching commits: '' @ e)
                        (afterSearch w commitsHeader (historyCommand g query 1)))
      | Panic \<Rightarrow> Panicked (afterSearch w commitsHeader (historyCommand g query 1))
      | Ok commits \<Rightarrow>
          (if commits = []
           then Done (Println ''No matches found in commit messages.''
                        (afterSearch w commitsHeader (historyCommand g query 1)))
           else pinnedLoop hash 0 commits
                  (afterSearch w commitsHeader (historyCommand g query 1))))"
proof -
  let ?w = "Println (CHR 0x0A # ''--- Commit Messages ---'') w"
  have f: "fst (searchInCommitHistory be g query 1 ?w) = fst (searchInCommitHistory be g query 1 w)"
    by (rule searchInCommitHistory_calls_only) simp
  have s: "snd (searchInCommitHistory be g query 1 ?w)
             = afterSearch w commitsHeader (historyCommand g query 1)"
    by (simp add: searchInCommitHistory_world afterSearch_def commitsHeader_def
        Println_def Print_def)
  have "searchInCommitHistory be g query 1 ?w
          = (fst (searchInCommitHistory be g query 1 w),
             afterSearch w commitsHeader (historyCommand g query 1))"
    using f s by (metis prod.collapse)
  then show ?thesis
    by (simp add: recentStage_def split: result.splits)
qed

lemma historyStage_unfold:
  "historyStage be g query w =
     (case fst (searchInCommitHistory be g query 10 w) of
        Err e \<Rightarrow> Done (logPrintf (''Error searching commits: '' @ e)
                        (afterSearch w commitsHeader (historyCommand g query 10)))
      | Panic \<Rightarrow> Panicked (afterSearch w commitsHeader (historyCommand g query 10))
      | Ok commits \<Rightarrow>
          (if commits = []
           then Done (Println ''No matches found in commit messages.''
                        (afterSearch w commitsHeader (historyCommand g query 10)))
           else commitLoop 0 commits
                  (afterSearch w commitsHeader (historyCommand g query 10))))"
proof -
  let ?w = "Println (CHR 0x0A # ''--- Commit Messages ---'') w"
  have f: "fst (searchInCommitHistory be g query 10 ?w) = fst (searchInCommitHistory be g query 10 w)"
    by (rule searchInCommitHistory_calls_only) simp
  have s: "snd (searchInCommitHistory be g query 10 ?w)
             = afterSearch w commitsHeader (historyCommand g query 10)"
    by (simp add: searchInCommitHistory_world afterSearch_def commitsHeader_def
        Println_def Print_def)
  have "searchInCommitHistory be g query 10 ?w
          = (fst (searchInCommitHistory be g query 10 w),
             afterSearch w commitsHeader (historyCommand g query 10))"
    using f s by (metis prod.collapse)
  then show ?thesis
    by (simp add: historyStage_def split: result.splits)
qed

lemma fileStage_unfold:
  "fileStage be g query w =
     (case fst (searchInFiles be g query 20 w) of
        Err e \<Rightarrow> Done (logPrintf (''Error searching files: '' @ e)
                        (afterSearch w filesHeader (filesCommand g query)))
      | Panic \<Rightarrow> Panicked (afterSearch w filesHeader (filesCommand g query))
      | Ok fileMatches \<Rightarrow>
          (if fileMatches = []
           then Done (Println ''No matches found in tracked files.''
                        (afterSearch w filesHeader (filesCommand g query)))
           else Done (if length fileMatches = 20
                      then Println ''... (showing first 20 matches)''
                             (matchLoop 0 fileMatches
                                (afterSearch w filesHeader (filesCommand g query)))
                      else matchLoop 0 fileMatches
                             (afterSearch w filesHeader (filesCommand g query)))))"
proof -
  let ?w = "Println (CHR 0x0A # ''--- File Contents ---'') w"
  have f: "fst (searchInFiles be g query 20 ?w) = fst (searchInFiles be g query 20 w)"
    by (rule searchInFiles_calls_only) simp
  have s: "snd (searchInFiles be g query 20 ?w) = afterSearch w filesHeader (filesCommand g query)"
    by (simp add: searchInFiles_world afterSearch_def filesHeader_def Println_def Print_def)
  have "searchInFiles be g query 20 ?w
          = (fst (searchInFiles be g query 20 w), afterSearch w filesHeader (filesCommand g query))"
    using f s by (metis prod.collapse)
  then show ?thesis
    by (simp add: fileStage_def Let_def split: result.splits)
qed

lemma calls_afterSearch [simp]: "calls (afterSearch w h c) = calls w @ [c]"
  by (simp add: afterSearch_def)

lemma out_afterSearch [simp]: "out (afterSearch w h c) = out w @ [h]"
  by (simp add: afterSearch_def)

lemma recentStage_calls:
  "calls (worldOf (recentStage be g query hash w)) = calls w @ [historyCommand g query 1]"
  by (simp add: recentStage_unfold pinnedLoop_calls split: result.splits)

lemma historyStage_calls:
  "calls (worldOf (historyStage be g query w)) = calls w @ [historyCommand g query 10]"
  by (simp add: historyStage_unfold commitLoop_calls split: result.splits)

lemma fileStage_calls:
  "calls (worldOf (fileStage be g query w)) = calls w @ [filesCommand g query]"
  by (simp add: fileStage_unfold split: result.splits)

lemma recentStage_panicked:
  "panicked (recentStage be g query hash w) \<longleftrightarrow>
     shortHash (fst (searchInCommitHistory be g query 1 w))"
proof (cases "fst (searchInCommitHistory be g query 1 w)")
  case (Ok commits)
  then show ?thesis
    using pinnedLoop_Panicked [of commits hash 0]
      pinnedLoop_Done [of commits hash 0]
    by (cases "anyShort commits") (auto simp: recentStage_unfold)
next
  case (Err e)
  then show ?thesis by (simp add: recentStage_unfold)
next
  case Panic
  then show ?thesis using searchInCommitHistory_no_Panic [of be g query 1 w] by simp
qed

lemma historyStage_panicked:
  "panicked (historyStage be g query w) \<longleftrightarrow>
     shortHash (fst (searchInCommitHistory be g query 10 w))"
proof (cases "fst (searchInCommitHistory be g query 10 w)")
  case (Ok commits)
  then show ?thesis
    using commitLoop_Panicked [of commits 0]
      commitLoop_Done [of commits 0]
    by (cases "anyShort commits") (auto simp: historyStage_unfold)
next
  case (Err e)
  then show ?thesis by (simp add: historyStage_unfold)
next
  case Panic
  then show ?thesis using searchInCommitHistory_no_Panic [of be g query 10 w] by simp
qed

lemma fileStage_not_panicked: "\<not> panicked (fileStage be g query w)"
  using searchInFiles_no_Panic [of 20 be g query w]
  by (simp add: fileStage_unfold split: result.splits)




lemma andThen_assoc: "andThen (andThen r f) h = andThen r (\<lambda>w. andThen (f w) h)"
  by (cases r) simp_all


lemma printed_Done_append:
  "out w' = out w @ es \<Longrightarrow> printed w (Done w') = es"
  by (simp add: printed_def)

text \<open>The file stage and the closing empty line.\<close>

lemma lastPart_not_panicked: "\<not> panicked (lastPart be g query w)"
  using fileStage_not_panicked [of be g query w]
  by (cases "fileStage be g query w") (simp_all add: lastPart_def)

lemma lastPart_calls:
  "calls (worldOf (lastPart be g query w)) = calls w @ [filesCommand g query]"
  using fileStage_calls [of be g query w]
  by (cases "fileStage be g query w") (simp_all add: lastPart_def)



text \<open>The history stage and what follows it.\<close>

lemma middlePart_panicked:
  "panicked (middlePart be g query w) \<longleftrightarrow>
     shortHash (fst (searchInCommitHistory be g query 10 w))"
  using historyStage_panicked [of be g query w] lastPart_not_panicked [of be g query]
  by (cases "historyStage be g query w") (simp_all add: middlePart_def)

lemma middlePart_calls:
  "calls (worldOf (middlePart be g query w)) =
     calls w @ (if shortHash (fst (searchInCommitHistory be g query 10 w))
                then [historyCommand g query 10]
                else [historyCommand g query 10, filesCommand g query])"
  using historyStage_panicked [of be g query w] historyStage_calls [of be g query w]
    lastPart_calls [of be g query]
  by (cases "historyStage be g query w") (simp_all add: middlePart_def)




lemma performSearch_parts:
  "performSearch be g query w =
     andThen (recentStage be g query ''64fc5dd7'' (w\<lparr>out := out w @ [resultsHeader query]\<rparr>))
       (middlePart be g query)"
proof -
  have m: "middlePart be g query =
             (\<lambda>w. andThen (historyStage be g query w)
                    (\<lambda>w. andThen (fileStage be g query w) (\<lambda>w'. Done (Println [] w'))))"
    by (rule ext) (simp add: middlePart_def lastPart_def [abs_def])
  show ?thesis
    by (simp add: performSearch_def andThen_assoc m Print_def resultsHeader_def)
qed









lemma historyStage_printed:
  assumes "fst (searchInCommitHistory be g query 10 w) = Ok commits"
    and "commits \<noteq> []" and "\<not> anyShort commits"
  shows "historyStage be g query w =
           Done (w\<lparr>calls := calls w @ [historyCommand g query 10],
                   out := out w @ commitsHeader # commitLines 0 commits\<rparr>)"
  using assms by (simp add: historyStage_unfold commitLoop_Done afterSearch_def)

lemma recentStage_printed:
  assumes "fst (searchInCommitHistory be g query 1 w) = Ok commits"
    and "commits \<noteq> []" and "\<not> anyShort commits"
  shows "recentStage be g query hash w =
           Done (w\<lparr>calls := calls w @ [historyCommand g query 1],
                   out := out w @ commitsHeader # pinnedLines hash 0 commits\<rparr>)"
  using assms by (simp add: recentStage_unfold pinnedLoop_Done afterSearch_def)

lemma displayLastCommit_unfold:
  "displayLastCommit be g w =
     (case fst (getLastCommitDetails be g w) of
        Err e \<Rightarrow> Done (logPrintf (''Error getting commit details: '' @ e)
                        (afterSearch w lastCommitHeader (detailsCommand g)))
      | Panic \<Rightarrow> Panicked (afterSearch w lastCommitHeader (detailsCommand g))
      | Ok details \<Rightarrow>
          (case sliceTo (index details ''hash'') 8 of
             None \<Rightarrow> Panicked (afterSearch w lastCommitHeader (detailsCommand g))
           | Some h \<Rightarrow>
               (let w1 = Print (''Hash:    '' @ h @ [CHR 0x0A])
                           (afterSearch w lastCommitHeader (detailsCommand g));
                    w2 = Print (''Author:  '' @ index details ''author'' @ '' <''
                                @ index details ''email'' @ ''>'' @ [CHR 0x0A]) w1;
                    w3 = Print (''Date:    '' @ index details ''date'' @ [CHR 0x0A]) w2;
                    w4 = Print (''Subject: '' @ index details ''subject'' @ [CHR 0x0A]) w3;
                    w5 = (if index details ''body'' \<noteq> []
                          then Print (''Body:    '' @ index details ''body'' @ [CHR 0x0A]) w4
                          else w4)
                in Done (Println [] w5))))"
proof -
  let ?w = "Println ''=== Last Commit Information ==='' w"
  have f: "fst (getLastCommitDetails be g ?w) = fst (getLastCommitDetails be g w)"
    by (rule getLastCommitDetails_calls_only) simp
  have s: "snd (getLastCommitDetails be g ?w) = afterSearch w lastCommitHeader (detailsCommand g)"
    by (simp add: getLastCommitDetails_world afterSearch_def lastCommitHeader_def
        Println_def Print_def)
  have "getLastCommitDetails be g ?w
          = (fst (getLastCommitDetails be g w), afterSearch w lastCommitHeader (detailsCommand g))"
    using f s by (metis prod.collapse)
  then show ?thesis
    by (simp add: displayLastCommit_def split: result.splits)
qed

lemma displayLastCommit_panicked:
  "fst (getLastCommitDetails be g w) = Ok details \<Longrightarrow>
     panicked (displayLastCommit be g w) \<longleftrightarrow> length (index details ''hash'') < 8"
  by (auto simp: displayLastCommit_unfold sliceTo_def Let_def)

lemma displayLastCommit_hash:
  "fst (getLastCommitDetails be g w) = Ok details \<Longrightarrow> 8 \<le> length (index details ''hash'') \<Longrightarrow>
     Stdout (''Hash:    '' @ take 8 (index details ''hash'') @ [CHR 0x0A])
       \<in> set (printed w (displayLastCommit be g w))"
  by (simp add: displayLastCommit_unfold sliceTo_def Let_def printed_def)

text \<open>
  C3 (amended). The short hash shown is the first 8 bytes of the hash. With a hash of
  fewer than 8 bytes, \<^verbatim>\<open>displayLastCommit\<close> and both commit loops of \<^verbatim>\<open>performSearch\<close>
  panic; with 8 bytes or more they do not.
\<close>

theorem short_hash_display:
  "(panicked (recentStage be g query hash w) \<longleftrightarrow>
      shortHash (fst (searchInCommitHistory be g query 1 w))) \<and>
   (panicked (historyStage be g query w) \<longleftrightarrow>
      shortHash (fst (searchInCommitHistory be g query 10 w))) \<and>
   (fst (getLastCommitDetails be g w) = Ok details \<longrightarrow>
      (panicked (displayLastCommit be g w) \<longleftrightarrow> length (index details ''hash'') < 8) \<and>
      (8 \<le> length (index details ''hash'') \<longrightarrow>
         Stdout (''Hash:    '' @ take 8 (index details ''hash'') @ [CHR 0x0A])
           \<in> set (printed w (displayLastCommit be g w)))) \<and>
   (fst (searchInCommitHistory be g query 1 w) = Ok commits \<longrightarrow> commits \<noteq> [] \<longrightarrow>
      \<not> anyShort commits \<longrightarrow>
      printed w (recentStage be g query hash w) = commitsHeader # pinnedLines hash 0 commits) \<and>
   (fst (searchInCommitHistory be g query 10 w) = Ok commits' \<longrightarrow> commits' \<noteq> [] \<longrightarrow>
      \<not> anyShort commits' \<longrightarrow>
      printed w (historyStage be g query w) = commitsHeader # commitLines 0 commits')"
  using recentStage_panicked [of be g query hash w] historyStage_panicked [of be g query w]
    displayLastCommit_panicked [of be g w details] displayLastCommit_hash [of be g w details]
    recentStage_printed [of be g query w commits hash]
    historyStage_printed [of be g query w commits']
  by (simp add: printed_def)

theorem short_hash_display_witness:
  "\<not> panicked (recentStage (scripted [Output ''64fc5dd7aa11|Ann|ann@example.org|2024-01-01|init''])
                 tool0 ''init'' ''64fc5dd7'' world0) \<and>
   \<not> panicked (historyStage (scripted [Output ''64fc5dd7aa11|Ann|ann@example.org|2024-01-01|init''])
                 tool0 ''init'' world0) \<and>
   \<not> panicked (displayLastCommit
                 (scripted [Output ''64fc5dd7aa11|Ann|ann@example.org|2024-01-01|init''])
                 tool0 world0) \<and>
   Stdout ''Hash:    64fc5dd7\<newline>''
     \<in> set (printed world0
            (displayLastCommit
               (scripted [Output ''64fc5dd7aa11|Ann|ann@example.org|2024-01-01|init''])
               tool0 world0)) \<and>
   printed world0
     (recentStage (scripted [Output ''64fc5dd7aa11|Ann|ann@example.org|2024-01-01|init''])
        tool0 ''init'' ''64fc5dd7'' world0)
     = [commitsHeader, Stdout ''1. [64fc5dd7] 2024-01-01 - Ann (ann@example.org)\<newline>''] \<and>
   printed world0
     (historyStage (scripted [Output ''64fc5dd7aa11|Ann|ann@example.org|2024-01-01|init''])
        tool0 ''init'' world0)
     = [commitsHeader, Stdout ''1. [64fc5dd7] 2024-01-01 - Ann (ann@example.org)\<newline>'']"
proof -
  let ?out = "''64fc5dd7aa11|Ann|ann@example.org|2024-01-01|init''"
  let ?be = "scripted [Output ?out]"
  have t: "TrimSpace ?out = ?out" by code_simp
  have sp: "Split CHR ''|'' ?out = [''64fc5dd7aa11'', ''Ann'', ''ann@example.org'', ''2024-01-01'', ''init'']"
    by simp
  have sn: "Split (CHR 0x0A) ?out = [?out]" by simp
  obtain details where d: "fst (getLastCommitDetails ?be tool0 world0) = Ok details"
    and dh: "index details ''hash'' = ''64fc5dd7aa11''"
    by (simp add: getLastCommitDetails_def run_def scripted_def world0_def t sp Let_def index_def)
  obtain commits where c1: "fst (searchInCommitHistory ?be tool0 ''init'' 1 world0) = Ok commits"
    and c10: "fst (searchInCommitHistory ?be tool0 ''init'' 10 world0) = Ok commits"
    and cs: "map shown commits = [[''64fc5dd7aa11'', ''Ann'', ''ann@example.org'', ''2024-01-01'']]"
    by (simp add: searchInCommitHistory_def run_def scripted_def world0_def t sp sn Let_def
        shown_def index_def)
  from cs obtain c where ce: "commits = [c]"
    and sc: "shown c = [''64fc5dd7aa11'', ''Ann'', ''ann@example.org'', ''2024-01-01'']"
    by auto
  from sc have ns: "\<not> anyShort commits" and ne: "commits \<noteq> []"
    and cl: "commitLines 0 commits = [Stdout ''1. [64fc5dd7] 2024-01-01 - Ann (ann@example.org)\<newline>'']"
    and pl: "pinnedLines ''64fc5dd7'' 0 commits
               = [Stdout ''1. [64fc5dd7] 2024-01-01 - Ann (ann@example.org)\<newline>'']"
    using ce
    by (simp_all add: shown_def commitLines_def pinnedLines_def commitLine_def fmt_d_def
        decimal.simps)
  show ?thesis
    using short_hash_display [of ?be tool0 "''init''" "''64fc5dd7''" world0 details commits commits]
      d dh c1 c10 ns ne cl pl
    by simp
qed

theorem short_hash_display_counterexample:
  "panicked (displayLastCommit
               (scripted [Output ''abc123|Ann|ann@example.org|2024-01-01|init'']) tool0 world0) \<and>
   panicked (performSearch
               (scripted [Output ''abc123|Ann|2024-01-01|init'']) tool0 ''init'' world0) \<and>
   panicked (performSearch
               (scripted [ExitError 128 ''exit status 128'', Output ''abc123|Ann|2024-01-01|init''])
               tool0 ''init'' world0)"
  by code_simp

section \<open>The first stage and the truncation notice\<close>

lemma pinnedLines_Nil [simp]: "pinnedLines hash i [] = []"
  by (simp add: pinnedLines_def)








lemma decimal_hd: "decimal n \<noteq> [] \<and> hd (decimal n) \<in> set ''0123456789''"
proof (induction n rule: decimal.induct)
  case (1 n)
  show ?case
  proof (cases "n < 10")
    case True
    then have "''0123456789'' ! n \<in> set ''0123456789''"
      by (intro nth_mem) simp
    with True show ?thesis by (simp add: decimal.simps [of n])
  next
    case False
    with 1 show ?thesis by (simp add: decimal.simps [of n])
  qed
qed

lemma matchLines_no_notice: "truncationNotice \<notin> set (matchLines i ms)"
proof
  assume "truncationNotice \<in> set (matchLines i ms)"
  then obtain k m where "''... (showing first 20 matches)'' @ [CHR 0x0A]
                           = fmt_d (int k + 1) @ ''. '' @ m @ [CHR 0x0A]"
    by (auto simp: matchLines_def truncationNotice_def)
  then have "hd (''... (showing first 20 matches)'' @ [CHR 0x0A])
               = hd (decimal (nat (int k + 1)) @ ''. '' @ m @ [CHR 0x0A])"
    by (simp add: fmt_d_def)
  with decimal_hd [of "nat (int k + 1)"] show False
    by auto
qed

lemma searchInFiles_length:
  "fst (searchInFiles be g query 20 w) = Ok ms \<Longrightarrow> length ms \<le> 20"
  by (auto simp: searchInFiles_def run_def Let_def split: run_result.splits if_splits)

lemma fileStage_printed:
  assumes "fst (searchInFiles be g query 20 w) = Ok ms" and "ms \<noteq> []"
  shows "printed w (fileStage be g query w) =
           filesHeader # matchLines 0 ms @ (if length ms = 20 then [truncationNotice] else [])"
  using assms
  by (simp add: fileStage_unfold printed_def matchLoop_out truncationNotice_def)

text \<open>
  C5 (amended). The file stage prints the notice \<^verbatim>\<open>... (showing first 20 matches)\<close>
  exactly when the file search has returned 20 matches, and the search never returns
  more. The history stage prints its header and one line for each commit, and no notice,
  whatever the number of commits.
\<close>

theorem truncation_notice:
  "(fst (searchInFiles be g query 20 w) = Ok fileMatches \<longrightarrow>
      length fileMatches \<le> 20 \<and>
      (truncationNotice \<in> set (printed w (fileStage be g query w))
         \<longleftrightarrow> length fileMatches = 20)) \<and>
   (fst (searchInCommitHistory be g query 10 w) = Ok commits \<longrightarrow> commits \<noteq> [] \<longrightarrow>
      \<not> anyShort commits \<longrightarrow>
      printed w (historyStage be g query w) = commitsHeader # commitLines 0 commits)"
proof (intro conjI impI)
  assume a: "fst (searchInFiles be g query 20 w) = Ok fileMatches"
  then show "length fileMatches \<le> 20" by (rule searchInFiles_length)
  show "truncationNotice \<in> set (printed w (fileStage be g query w))
          \<longleftrightarrow> length fileMatches = 20"
  proof (cases "fileMatches = []")
    case True
    with a show ?thesis
      by (simp add: fileStage_unfold printed_def truncationNotice_def filesHeader_def)
  next
    case False
    with a matchLines_no_notice [of 0 fileMatches] show ?thesis
      by (auto simp: fileStage_printed filesHeader_def truncationNotice_def)
  qed
next
  assume "fst (searchInCommitHistory be g query 10 w) = Ok commits" "commits \<noteq> []"
    "\<not> anyShort commits"
  then show "printed w (historyStage be g query w) = commitsHeader # commitLines 0 commits"
    by (simp add: historyStage_printed printed_def)
qed

theorem truncation_notice_counterexample:
  "printed world0
     (historyStage
        (scripted [Output (concat (replicate 10 ''0123456789abcdef|Ann|2024-01-01|fix\<newline>''))])
        tool0 ''fix'' world0)
     = [commitsHeader,
        Stdout ''1. [01234567] fix - Ann (2024-01-01)\<newline>'',
        Stdout ''2. [01234567] fix - Ann (2024-01-01)\<newline>'',
        Stdout ''3. [01234567] fix - Ann (2024-01-01)\<newline>'',
        Stdout ''4. [01234567] fix - Ann (2024-01-01)\<newline>'',
        Stdout ''5. [01234567] fix - Ann (2024-01-01)\<newline>'',
        Stdout ''6. [01234567] fix - Ann (2024-01-01)\<newline>'',
        Stdout ''7. [01234567] fix - Ann (2024-01-01)\<newline>'',
        Stdout ''8. [01234567] fix - Ann (2024-01-01)\<newline>'',
        Stdout ''9. [01234567] fix - Ann (2024-01-01)\<newline>'',
        Stdout ''10. [01234567] fix - Ann (2024-01-01)\<newline>'']"
  by code_simp

theorem truncation_notice_witness:
  "truncationNotice \<in> set (printed world0
      (fileStage (scripted [Output (concat (replicate 20 ''main.go:7:// TODO\<newline>''))])
         tool0 ''TODO'' world0)) \<and>
   truncationNotice \<notin> set (printed world0
      (fileStage (scripted [Output (concat (replicate 19 ''main.go:7:// TODO\<newline>''))])
         tool0 ''TODO'' world0)) \<and>
   printed world0
     (historyStage (scripted [Output ''0123456789abcdef|Ann|2024-01-01|fix''])
        tool0 ''fix'' world0)
     = [commitsHeader, Stdout ''1. [01234567] fix - Ann (2024-01-01)\<newline>'']"
proof -
  let ?o20 = "concat (replicate 20 ''main.go:7:// TODO\<newline>'')"
  let ?o19 = "concat (replicate 19 ''main.go:7:// TODO\<newline>'')"
  let ?oc = "''0123456789abcdef|Ann|2024-01-01|fix''"
  have m20: "Split (CHR 0x0A) (TrimSpace ?o20) = replicate 20 ''main.go:7:// TODO''"
    by code_simp
  have m19: "Split (CHR 0x0A) (TrimSpace ?o19) = replicate 19 ''main.go:7:// TODO''"
    by code_simp
  have f20: "fst (searchInFiles (scripted [Output ?o20]) tool0 ''TODO'' 20 world0)
               = Ok (replicate 20 ''main.go:7:// TODO'')"
    by (simp add: searchInFiles_def run_def scripted_def world0_def m20 Let_def)
  have f19: "fst (searchInFiles (scripted [Output ?o19]) tool0 ''TODO'' 20 world0)
               = Ok (replicate 19 ''main.go:7:// TODO'')"
    by (simp add: searchInFiles_def run_def scripted_def world0_def m19 Let_def)
  have t: "TrimSpace ?oc = ?oc" by code_simp
  obtain c where hc: "fst (searchInCommitHistory (scripted [Output ?oc]) tool0 ''fix'' 10 world0) = Ok [c]"
    and sc: "shown c = [''0123456789abcdef'', ''Ann'', ''2024-01-01'', ''fix'']"
    by (simp add: searchInCommitHistory_def run_def scripted_def world0_def t Let_def
        shown_def index_def)
  from sc have ns: "\<not> anyShort [c]"
    and cl: "commitLines 0 [c] = [Stdout ''1. [01234567] fix - Ann (2024-01-01)\<newline>'']"
    by (simp_all add: shown_def commitLines_def commitLine_def fmt_d_def decimal.simps)
  show ?thesis
    using truncation_notice [of "scripted [Output ?o20]" tool0 "''TODO''" world0
        "replicate 20 ''main.go:7:// TODO''" "[c]"]
      truncation_notice [of "scripted [Output ?o19]" tool0 "''TODO''" world0
        "replicate 19 ''main.go:7:// TODO''" "[c]"]
      truncation_notice [of "scripted [Output ?oc]" tool0 "''fix''" world0 "[]" "[c]"]
      f20 f19 hc ns cl
    by simp
qed

section \<open>Blank output, hashes and the body of the last commit\<close>

text \<open>
  C7 (what the code does). When the output of the backend is empty after trimming,
  \<^verbatim>\<open>searchInCommitHistory\<close> returns the empty list, but \<^verbatim>\<open>searchInFiles\<close> with a limit of
  at least 1 returns a list of one match, the empty string: splitting the empty string
  gives one empty line, and only the history search skips empty lines.
\<close>

theorem blank_output_results:
  "TrimSpace output = [] \<Longrightarrow>
     (be (calls w) (historyCommand g query n) = Output output \<longrightarrow>
        fst (searchInCommitHistory be g query n w) = Ok []) \<and>
     (be (calls w) (filesCommand g query) = Output output \<longrightarrow> 1 \<le> n \<longrightarrow>
        fst (searchInFiles be g query n w) = Ok [[]])"
  by (simp add: searchInCommitHistory_def searchInFiles_def run_def Let_def)

theorem blank_output_results_witness:
  "fst (searchInCommitHistory (scripted [Output '' \<newline>'']) tool0 ''TODO'' 10 world0) = Ok [] \<and>
   fst (searchInFiles (scripted [Output '' \<newline>'']) tool0 ''TODO'' 20 world0) = Ok [[]] \<and>
   printed world0 (fileStage (scripted [Output '' \<newline>'']) tool0 ''TODO'' world0)
     = [filesHeader, Stdout ''1. \<newline>'']"
proof -
  have t: "TrimSpace '' \<newline>'' = []" by code_simp
  have a: "scripted [Output '' \<newline>''] (calls world0) (historyCommand tool0 ''TODO'' 10)
             = Output '' \<newline>''"
    by (simp add: scripted_def world0_def)
  have b: "scripted [Output '' \<newline>''] (calls world0) (filesCommand tool0 ''TODO'')
             = Output '' \<newline>''"
    by (simp add: scripted_def world0_def)
  have c: "printed world0 (fileStage (scripted [Output '' \<newline>'']) tool0 ''TODO'' world0)
     = [filesHeader, Stdout ''1. \<newline>'']"
    by code_simp
  have "fst (searchInCommitHistory (scripted [Output '' \<newline>'']) tool0 ''TODO'' 10 world0) = Ok []"
    using blank_output_results [OF t, of "scripted [Output '' \<newline>'']" world0 tool0 "''TODO''" 10] a
    by simp
  moreover
  have "fst (searchInFiles (scripted [Output '' \<newline>'']) tool0 ''TODO'' 20 world0) = Ok [[]]"
    using blank_output_results [OF t, of "scripted [Output '' \<newline>'']" world0 tool0 "''TODO''" 20] b
    by simp
  ultimately show ?thesis using c by simp
qed

lemma takeWhile_empty_iff: "takeWhile (\<lambda>c. c \<noteq> sep) s = [] \<longleftrightarrow> s = [] \<or> hd s = sep"
  by (cases s) auto

lemma empty_takeWhile_iff: "[] = takeWhile (\<lambda>c. c \<noteq> sep) s \<longleftrightarrow> s = [] \<or> hd s = sep"
  by (cases s) auto

lemma hashesOf_shown: "hashesOf (Ok commits) = map hd (map shown commits)"
  by (simp add: shown_def)

lemma searchInCommitHistory_hashes:
  assumes "be (calls w) (historyCommand g query n) = Output output"
  shows "hashesOf (fst (searchInCommitHistory be g query n w)) =
           map (takeWhile (\<lambda>c. c \<noteq> CHR ''|''))
             (filter (\<lambda>line. 4 \<le> length (Split CHR ''|'' line))
                (Split (CHR 0x0A) (TrimSpace output)))"
proof -
  have "hashesOf (fst (searchInCommitHistory be g query n w)) =
          map hd (map (\<lambda>line. take 4 (Split CHR ''|'' line))
            (filter (\<lambda>line. 4 \<le> length (Split CHR ''|'' line))
               (Split (CHR 0x0A) (TrimSpace output))))"
    using assms
    by (simp only: searchInCommitHistory_Output fst_conv hashesOf_shown historyLoop_shown)
  also have "\<dots> = map (takeWhile (\<lambda>c. c \<noteq> CHR ''|''))
             (filter (\<lambda>line. 4 \<le> length (Split CHR ''|'' line))
                (Split (CHR 0x0A) (TrimSpace output)))"
    by (simp add: hd_Split)
  finally show ?thesis .
qed

lemma getLastCommitDetails_hash:
  assumes "be (calls w) (detailsCommand g) = Output output"
    and "fst (getLastCommitDetails be g w) = Ok details"
  shows "index details ''hash'' = takeWhile (\<lambda>c. c \<noteq> CHR ''|'') (TrimSpace output)"
    and "TrimSpace output \<noteq> []"
proof -
  from assms have l: "5 \<le> length (Split CHR ''|'' (TrimSpace output))"
    by (auto simp: getLastCommitDetails_def run_def Let_def split: if_splits)
  then show "TrimSpace output \<noteq> []" by auto
  from assms l show "index details ''hash'' = takeWhile (\<lambda>c. c \<noteq> CHR ''|'') (TrimSpace output)"
    by (auto simp: getLastCommitDetails_def run_def Let_def index_def Split_nth_0
        split: if_splits)
qed

text \<open>
  C8 (amended). The hash of a commit record is the text before the first pipe of its
  line (of the trimmed output, for the detail fetch). It is empty exactly when that line
  starts with the pipe.
\<close>

theorem record_hash:
  "(be (calls w) (historyCommand g query n) = Output output \<longrightarrow>
      hashesOf (fst (searchInCommitHistory be g query n w)) =
        map (takeWhile (\<lambda>c. c \<noteq> CHR ''|''))
          (filter (\<lambda>line. 4 \<le> length (Split CHR ''|'' line))
             (Split (CHR 0x0A) (TrimSpace output))) \<and>
      ([] \<in> set (hashesOf (fst (searchInCommitHistory be g query n w))) \<longleftrightarrow>
         (\<exists>line \<in> set (Split (CHR 0x0A) (TrimSpace output)).
            4 \<le> length (Split CHR ''|'' line) \<and> hd line = CHR ''|''))) \<and>
   (be (calls w) (detailsCommand g) = Output output' \<longrightarrow>
      fst (getLastCommitDetails be g w) = Ok details \<longrightarrow>
      index details ''hash'' = takeWhile (\<lambda>c. c \<noteq> CHR ''|'') (TrimSpace output') \<and>
      (index details ''hash'' = [] \<longleftrightarrow> hd (TrimSpace output') = CHR ''|''))"
proof (intro conjI impI)
  assume a: "be (calls w) (historyCommand g query n) = Output output"
  then show h: "hashesOf (fst (searchInCommitHistory be g query n w)) =
        map (takeWhile (\<lambda>c. c \<noteq> CHR ''|''))
          (filter (\<lambda>line. 4 \<le> length (Split CHR ''|'' line))
             (Split (CHR 0x0A) (TrimSpace output)))"
    by (rule searchInCommitHistory_hashes)
  have "\<And>line. 4 \<le> length (Split CHR ''|'' line) \<Longrightarrow> line \<noteq> []"
    by auto
  then show "[] \<in> set (hashesOf (fst (searchInCommitHistory be g query n w))) \<longleftrightarrow>
         (\<exists>line \<in> set (Split (CHR 0x0A) (TrimSpace output)).
            4 \<le> length (Split CHR ''|'' line) \<and> hd line = CHR ''|'')"
    unfolding h by (auto simp: empty_takeWhile_iff)
next
  assume a: "be (calls w) (detailsCommand g) = Output output'"
    and b: "fst (getLastCommitDetails be g w) = Ok details"
  from getLastCommitDetails_hash [OF a b]
  show h: "index details ''hash'' = takeWhile (\<lambda>c. c \<noteq> CHR ''|'') (TrimSpace output')"
    and "index details ''hash'' = [] \<longleftrightarrow> hd (TrimSpace output') = CHR ''|''"
    by (simp_all add: takeWhile_empty_iff)
qed

theorem record_hash_counterexample:
  "hashesOf (fst (searchInCommitHistory (scripted [Output ''|Ann|2024-01-01|init''])
                    tool0 ''init'' 10 world0)) = [[]] \<and>
   hashesOf (fst (searchInCommitHistory
                    (scripted [Output ''0123456789abcdef|Ann|2024-01-01|init\<newline>|Bob|2024-01-02|fix''])
                    tool0 ''i'' 10 world0)) = [''0123456789abcdef'', []]"
  by code_simp

theorem record_hash_witness:
  "hashesOf (fst (searchInCommitHistory
                    (scripted [Output ''0123456789abcdef|Ann|2024-01-01|init\<newline>x|y\<newline>|Bob|2024-01-02|fix''])
                    tool0 ''i'' 10 world0)) = [''0123456789abcdef'', []] \<and>
   (\<exists>details.
      fst (getLastCommitDetails
             (scripted [Output ''0123456789abcdef|Ann|ann@example.org|2024-01-01|init''])
             tool0 world0) = Ok details \<and>
      index details ''hash'' = ''0123456789abcdef'')"
proof -
  let ?o1 = "''0123456789abcdef|Ann|2024-01-01|init\<newline>x|y\<newline>|Bob|2024-01-02|fix''"
  let ?o2 = "''0123456789abcdef|Ann|ann@example.org|2024-01-01|init''"
  have h1: "scripted [Output ?o1] (calls world0) (historyCommand tool0 ''i'' 10) = Output ?o1"
    by (simp add: scripted_def world0_def)
  have h2: "scripted [Output ?o2] (calls world0) (detailsCommand tool0) = Output ?o2"
    by (simp add: scripted_def world0_def)
  have e1: "map (takeWhile (\<lambda>c. c \<noteq> CHR ''|''))
          (filter (\<lambda>line. 4 \<le> length (Split CHR ''|'' line))
             (Split (CHR 0x0A) (TrimSpace ?o1))) = [''0123456789abcdef'', []]"
    by code_simp
  have e2: "takeWhile (\<lambda>c. c \<noteq> CHR ''|'') (TrimSpace ?o2) = ''0123456789abcdef''"
    by code_simp
  have t2: "TrimSpace ?o2 = ?o2" by code_simp
  obtain details where d: "fst (getLastCommitDetails (scripted [Output ?o2]) tool0 world0) = Ok details"
    by (simp add: getLastCommitDetails_def run_def scripted_def world0_def t2 Let_def)
  have a: "hashesOf (fst (searchInCommitHistory (scripted [Output ?o1]) tool0 ''i'' 10 world0))
             = [''0123456789abcdef'', []]"
    using record_hash [of "scripted [Output ?o1]" world0 tool0 "''i''" 10 ?o1 ?o1 details] h1 e1
    by simp
  have b: "index details ''hash'' = ''0123456789abcdef''"
    using record_hash [of "scripted [Output ?o2]" world0 tool0 "''i''" 10 ?o2 ?o2 details] h2 d e2
    by simp
  from a b d show ?thesis by blast
qed

text \<open>
  C10. In the detail fetch the record holds the first five fields and, as its body, the
  sixth field when there is one and the empty string otherwise; later fields are not
  kept. So a body with a pipe in it is cut at its first pipe.
\<close>

theorem details_body:
  "(be (calls w) (detailsCommand g) = Output output \<longrightarrow>
      5 \<le> length (Split CHR ''|'' (TrimSpace output)) \<longrightarrow>
      fst (getLastCommitDetails be g w) =
        Ok [''hash'' \<mapsto> Split CHR ''|'' (TrimSpace output) ! 0,
            ''author'' \<mapsto> Split CHR ''|'' (TrimSpace output) ! 1,
            ''email'' \<mapsto> Split CHR ''|'' (TrimSpace output) ! 2,
            ''date'' \<mapsto> Split CHR ''|'' (TrimSpace output) ! 3,
            ''subject'' \<mapsto> Split CHR ''|'' (TrimSpace output) ! 4,
            ''body'' \<mapsto> (if 5 < length (Split CHR ''|'' (TrimSpace output))
                          then Split CHR ''|'' (TrimSpace output) ! 5 else [])]) \<and>
   (be (calls w) (detailsCommand g) = Output output \<longrightarrow>
      TrimSpace output = h @ ''|'' @ a @ ''|'' @ e @ ''|'' @ d @ ''|'' @ s @ ''|'' @ b \<longrightarrow>
      CHR ''|'' \<notin> set h \<union> set a \<union> set e \<union> set d \<union> set s \<longrightarrow>
      (\<exists>details. fst (getLastCommitDetails be g w) = Ok details \<and>
         index details ''subject'' = s \<and>
         index details ''body'' = takeWhile (\<lambda>c. c \<noteq> CHR ''|'') b))"
proof (intro conjI impI)
  assume "be (calls w) (detailsCommand g) = Output output"
    and "5 \<le> length (Split CHR ''|'' (TrimSpace output))"
  then show "fst (getLastCommitDetails be g w) =
        Ok [''hash'' \<mapsto> Split CHR ''|'' (TrimSpace output) ! 0,
            ''author'' \<mapsto> Split CHR ''|'' (TrimSpace output) ! 1,
            ''email'' \<mapsto> Split CHR ''|'' (TrimSpace output) ! 2,
            ''date'' \<mapsto> Split CHR ''|'' (TrimSpace output) ! 3,
            ''subject'' \<mapsto> Split CHR ''|'' (TrimSpace output) ! 4,
            ''body'' \<mapsto> (if 5 < length (Split CHR ''|'' (TrimSpace output))
                          then Split CHR ''|'' (TrimSpace output) ! 5 else [])]"
    by (simp add: getLastCommitDetails_def run_def Let_def)
next
  assume o: "be (calls w) (detailsCommand g) = Output output"
    and t: "TrimSpace output = h @ ''|'' @ a @ ''|'' @ e @ ''|'' @ d @ ''|'' @ s @ ''|'' @ b"
    and n: "CHR ''|'' \<notin> set h \<union> set a \<union> set e \<union> set d \<union> set s"
  have sp: "Split CHR ''|'' (TrimSpace output) = h # a # e # d # s # Split CHR ''|'' b"
    using n by (simp add: t Split_append_sep)
  obtain p ps where b: "Split CHR ''|'' b = p # ps"
    by (cases "Split CHR ''|'' b") simp_all
  with hd_Split [of "CHR ''|''" b] have p: "p = takeWhile (\<lambda>c. c \<noteq> CHR ''|'') b"
    by simp
  show "\<exists>details. fst (getLastCommitDetails be g w) = Ok details \<and>
         index details ''subject'' = s \<and>
         index details ''body'' = takeWhile (\<lambda>c. c \<noteq> CHR ''|'') b"
    using o by (simp add: getLastCommitDetails_def run_def Let_def sp b p index_def)
qed

theorem details_body_witness:
  "(\<exists>details.
      fst (getLastCommitDetails
             (scripted [Output ''0123456789abcdef|Ann|ann@example.org|2024-01-01|init|first part|second part|third\<newline>'']) tool0 world0) = Ok details \<and>
      index details ''subject'' = ''init'' \<and>
      index details ''body'' = ''first part'') \<and>
   fst (getLastCommitDetails
          (scripted [Output ''0123456789abcdef|Ann|ann@example.org|2024-01-01|init'']) tool0 world0)
     = Ok [''hash'' \<mapsto> ''0123456789abcdef'', ''author'' \<mapsto> ''Ann'',
           ''email'' \<mapsto> ''ann@example.org'', ''date'' \<mapsto> ''2024-01-01'',
           ''subject'' \<mapsto> ''init'', ''body'' \<mapsto> []]"
proof -
  let ?o1 = "''0123456789abcdef|Ann|ann@example.org|2024-01-01|init|first part|second part|third\<newline>''"
  let ?o2 = "''0123456789abcdef|Ann|ann@example.org|2024-01-01|init''"
  have h1: "scripted [Output ?o1] (calls world0) (detailsCommand tool0) = Output ?o1"
    by (simp add: scripted_def world0_def)
  have h2: "scripted [Output ?o2] (calls world0) (detailsCommand tool0) = Output ?o2"
    by (simp add: scripted_def world0_def)
  have t1: "TrimSpace ?o1 = ''0123456789abcdef'' @ ''|'' @ ''Ann'' @ ''|'' @ ''ann@example.org''
              @ ''|'' @ ''2024-01-01'' @ ''|'' @ ''init'' @ ''|'' @ ''first part|second part|third''"
    by code_simp
  have t2: "TrimSpace ?o2 = ?o2" by code_simp
  have s2: "Split CHR ''|'' ?o2 = [''0123456789abcdef'', ''Ann'', ''ann@example.org'', ''2024-01-01'', ''init'']"
    by simp
  have a: "\<exists>details.
      fst (getLastCommitDetails (scripted [Output ?o1]) tool0 world0) = Ok details \<and>
      index details ''subject'' = ''init'' \<and>
      index details ''body'' = ''first part''"
    using details_body [of "scripted [Output ?o1]" world0 tool0 ?o1 "''0123456789abcdef''"
        "''Ann''" "''ann@example.org''" "''2024-01-01''" "''init''"
        "''first part|second part|third''"] h1 t1
    by (simp add: index_def)
  have b: "fst (getLastCommitDetails (scripted [Output ?o2]) tool0 world0)
     = Ok [''hash'' \<mapsto> ''0123456789abcdef'', ''author'' \<mapsto> ''Ann'',
           ''email'' \<mapsto> ''ann@example.org'', ''date'' \<mapsto> ''2024-01-01'',
           ''subject'' \<mapsto> ''init'', ''body'' \<mapsto> []]"
    using details_body [of "scripted [Output ?o2]" world0 tool0 ?o2 "[]" "[]" "[]" "[]" "[]" "[]"]
      h2
    by (simp add: t2 s2)
  from a b show ?thesis by simp
qed

section \<open>The session loop\<close>

lemma performSearch_Done_calls:
  assumes "performSearch be g query w = Done w'"
  shows "calls w' = calls w @ searchCommands g query"
proof -
  let ?w0 = "w\<lparr>out := out w @ [resultsHeader query]\<rparr>"
  from assms obtain w1 where
    x: "recentStage be g query ''64fc5dd7'' ?w0 = Done w1"
    and m: "middlePart be g query w1 = Done w'"
    by (cases "recentStage be g query ''64fc5dd7'' ?w0") (simp_all add: performSearch_parts)
  from x recentStage_calls [of be g query "''64fc5dd7''" ?w0]
  have c1: "calls w1 = calls w @ [historyCommand g query 1]" by simp
  from m middlePart_panicked [of be g query w1]
  have "\<not> shortHash (fst (searchInCommitHistory be g query 10 w1))" by simp
  with m middlePart_calls [of be g query w1]
  have "calls w' = calls w1 @ [historyCommand g query 10, filesCommand g query]" by simp
  with c1 show ?thesis by (simp add: searchCommands_def)
qed

lemma interactiveSearch_Done_calls:
  "interactiveSearch be g input w = Done w' \<Longrightarrow>
     calls w' = calls w @ concat (map (searchCommands g) (dispatched input))"
proof (induction input arbitrary: w)
  case Nil
  then show ?case by auto
next
  case (Cons line rest)
  let ?q = "TrimSpace line"
  let ?w1 = "Print ''Enter search query (or 'quit' to exit): '' w"
  consider (stop) "?q = ''quit'' \<or> ?q = ''exit'' \<or> ?q = ''q''"
    | (skip) "\<not> (?q = ''quit'' \<or> ?q = ''exit'' \<or> ?q = ''q'')" "?q = []"
    | (go) "\<not> (?q = ''quit'' \<or> ?q = ''exit'' \<or> ?q = ''q'')" "?q \<noteq> []"
    by blast
  then show ?case
  proof cases
    case stop
    with Cons.prems show ?thesis by (auto simp: Let_def)
  next
    case skip
    with Cons.prems have "interactiveSearch be g rest ?w1 = Done w'"
      by (simp add: Let_def)
    from Cons.IH [OF this] skip show ?thesis by simp
  next
    case go
    with Cons.prems obtain w2 where p: "performSearch be g ?q ?w1 = Done w2"
      and r: "interactiveSearch be g rest w2 = Done w'"
      by (cases "performSearch be g ?q ?w1") (simp_all add: Let_def)
    from performSearch_Done_calls [OF p] have "calls w2 = calls w @ searchCommands g ?q"
      by simp
    with Cons.IH [OF r] go show ?thesis by simp
  qed
qed

text \<open>
  C9 (amended). At the end of the input, and at a line whose trimmed text is
  \<^verbatim>\<open>quit\<close>, \<^verbatim>\<open>exit\<close> or \<^verbatim>\<open>q\<close>, the loop ends without a search. An empty line starts no
  search and the loop goes on with the next line. Any other line starts one search, for
  its trimmed text, and the loop goes on with the next line when that search returns; a
  search that panics ends the loop. A loop that returns has run the three commands of
  one search for each such line before the first exit word, in order, and no other.
\<close>

theorem session_loop:
  "interactiveSearch be g [] w = Done (prompt w) \<and>
   (TrimSpace text = ''quit'' \<or> TrimSpace text = ''exit'' \<or> TrimSpace text = ''q'' \<longrightarrow>
      interactiveSearch be g (text # rest) w = Done (prompt w)) \<and>
   (TrimSpace text = [] \<longrightarrow>
      interactiveSearch be g (text # rest) w = interactiveSearch be g rest (prompt w)) \<and>
   (TrimSpace text \<notin> {''quit'', ''exit'', ''q'', []} \<longrightarrow>
      interactiveSearch be g (text # rest) w =
        andThen (performSearch be g (TrimSpace text) (prompt w)) (interactiveSearch be g rest)) \<and>
   (interactiveSearch be g input w = Done w' \<longrightarrow>
      calls w' = calls w @ concat (map (searchCommands g) (dispatched input)))"
proof (intro conjI impI)
  show "interactiveSearch be g [] w = Done (prompt w)"
    by (simp add: prompt_def)
  show "interactiveSearch be g (text # rest) w = Done (prompt w)"
    if "TrimSpace text = ''quit'' \<or> TrimSpace text = ''exit'' \<or> TrimSpace text = ''q''"
    using that by (auto simp: prompt_def Let_def)
  show "interactiveSearch be g (text # rest) w = interactiveSearch be g rest (prompt w)"
    if "TrimSpace text = []"
    using that by (simp add: prompt_def Let_def)
  show "interactiveSearch be g (text # rest) w =
        andThen (performSearch be g (TrimSpace text) (prompt w)) (interactiveSearch be g rest)"
    if "TrimSpace text \<notin> {''quit'', ''exit'', ''q'', []}"
    using that
    by (cases "performSearch be g (TrimSpace text) (prompt w)")
      (simp_all add: prompt_def Let_def)
  show "calls w' = calls w @ concat (map (searchCommands g) (dispatched input))"
    if "interactiveSearch be g input w = Done w'"
    using that by (rule interactiveSearch_Done_calls)
qed

theorem session_loop_counterexample:
  "panicked (interactiveSearch (scripted [Output ''abc123|Ann|2024-01-01|init''])
               tool0 [''init'', ''fix'', ''quit''] world0) \<and>
   issued world0 (interactiveSearch (scripted [Output ''abc123|Ann|2024-01-01|init''])
                    tool0 [''init'', ''fix'', ''quit''] world0)
     = [historyCommand tool0 ''init'' 1]"
  by code_simp

theorem session_loop_witness:
  "\<not> panicked (interactiveSearch (scripted []) tool0
                 [''  '', '' fix '', ''Quit'', ''q'', ''never''] world0) \<and>
   calls (worldOf (interactiveSearch (scripted []) tool0
                     [''  '', '' fix '', ''Quit'', ''q'', ''never''] world0))
     = searchCommands tool0 ''fix'' @ searchCommands tool0 ''Quit'' \<and>
   interactiveSearch (scripted []) tool0 [''exit'', ''fix''] world0 = Done (prompt world0) \<and>
   interactiveSearch (scripted []) tool0 [] world0 = Done (prompt world0) \<and>
   interactiveSearch (scripted []) tool0 [''  '', '' quit ''] world0
     = Done (prompt (prompt world0)) \<and>
   interactiveSearch (scripted []) tool0 ['' fix ''] world0
     = andThen (performSearch (scripted []) tool0 ''fix'' (prompt world0))
         (interactiveSearch (scripted []) tool0 [])"
proof -
  let ?input = "[''  '', '' fix '', ''Quit'', ''q'', ''never'']"
  have np: "\<not> panicked (interactiveSearch (scripted []) tool0 ?input world0)"
    by code_simp
  then obtain w' where d: "interactiveSearch (scripted []) tool0 ?input world0 = Done w'"
    by (cases "interactiveSearch (scripted []) tool0 ?input world0") auto
  have ds: "dispatched ?input = [''fix'', ''Quit'']"
    by code_simp
  have t: "TrimSpace ''exit'' = ''exit''" "TrimSpace ''  '' = []" "TrimSpace '' quit '' = ''quit''"
    "TrimSpace '' fix '' = ''fix''"
    by code_simp+
  have a: "calls w' = searchCommands tool0 ''fix'' @ searchCommands tool0 ''Quit''"
    using session_loop [of "scripted []" tool0 world0 "''exit''" "[''fix'']" ?input w'] d ds
    by (simp add: world0_def)
  have b: "interactiveSearch (scripted []) tool0 [''exit'', ''fix''] world0 = Done (prompt world0)"
    and c: "interactiveSearch (scripted []) tool0 [] world0 = Done (prompt world0)"
    using session_loop [of "scripted []" tool0 world0 "''exit''" "[''fix'']" ?input w'] t
    by simp_all
  have e: "interactiveSearch (scripted []) tool0 [''  '', '' quit ''] world0
             = Done (prompt (prompt world0))"
    using session_loop [of "scripted []" tool0 world0 "''  ''" "['' quit '']" ?input w']
      session_loop [of "scripted []" tool0 "prompt world0" "'' quit ''" "[]" ?input w'] t
    by (simp del: interactiveSearch.simps)
  have f: "interactiveSearch (scripted []) tool0 ['' fix ''] world0
     = andThen (performSearch (scripted []) tool0 ''fix'' (prompt world0))
         (interactiveSearch (scripted []) tool0 [])"
    using session_loop [of "scripted []" tool0 world0 "'' fix ''" "[]" ?input w'] t
    by (simp del: interactiveSearch.simps)
  from np d a b c e f show ?thesis by (simp del: interactiveSearch.simps)
qed

end
